theory Spec2Isabelle
  imports Main
begin

section \<open>Strings\<close>

text \<open>
  A JavaScript string is a sequence of code units and a Go string a sequence of bytes;
  both are modelled as \<^typ>\<open>string\<close>. Every character the code compares against is
  ASCII, so one \<^typ>\<open>char\<close> stands for one code unit (or byte).
\<close>

definition newline :: char where
  "newline = CHR 0x0A"

definition backslash :: char where
  "backslash = CHR 0x5C"

section \<open>Regular expressions\<close>

text \<open>
  The regular expressions of the program are sequences of literals and of character
  classes, single or repeated; they have no alternation and no nested repetition. On such
  expressions the backtracking matcher of JavaScript and the leftmost-first matcher of Go's
  \<^verbatim>\<open>regexp\<close> package agree: among the matches at the leftmost possible start, each
  repetition in turn takes as many characters as the rest of the expression allows.
  \<^verbatim>\<open>startsWith\<close>, \<^verbatim>\<open>HasPrefix\<close> and \<^verbatim>\<open>includes\<close> are the string tests of the
  two languages.
\<close>

fun starts_with :: "string \<Rightarrow> string \<Rightarrow> bool" where
  "starts_with [] s = True"
| "starts_with (p # ps) [] = False"
| "starts_with (p # ps) (x # xs) = (if p = x then starts_with ps xs else False)"

fun str_includes :: "string \<Rightarrow> string \<Rightarrow> bool" where
  "str_includes sub [] = starts_with sub []"
| "str_includes sub (x # xs) = (if starts_with sub (x # xs) then True else str_includes sub xs)"

text \<open>
  Case-insensitive matching (flag \<^verbatim>\<open>i\<close> without \<^verbatim>\<open>u\<close>) compares canonical forms:
  an ASCII lower-case letter counts as its upper-case letter, and a character outside ASCII
  never counts as an ASCII one.
\<close>

definition canonicalize :: "char \<Rightarrow> char" where
  "canonicalize c =
     (case map_of (zip ''abcdefghijklmnopqrstuvwxyz'' ''ABCDEFGHIJKLMNOPQRSTUVWXYZ'') c of
        Some u \<Rightarrow> u
      | None \<Rightarrow> c)"

fun starts_with_ci :: "string \<Rightarrow> string \<Rightarrow> bool" where
  "starts_with_ci [] s = True"
| "starts_with_ci (p # ps) [] = False"
| "starts_with_ci (p # ps) (x # xs) =
     (if canonicalize p = canonicalize x then starts_with_ci ps xs else False)"

text \<open>
  A character class: \<^verbatim>\<open>[abc]\<close>, \<^verbatim>\<open>[^abc]\<close> or \<^verbatim>\<open>\d\<close>. An item of an
  expression: a literal, a literal under the flag \<^verbatim>\<open>i\<close>, one character of a class, or
  a class repeated greedily (\<^verbatim>\<open>*\<close>, \<^verbatim>\<open>+\<close>).
\<close>

datatype cls = In string | NotIn string | Digit

fun cls_mem :: "cls \<Rightarrow> char \<Rightarrow> bool" where
  "cls_mem (In cs) c = (c \<in> set cs)"
| "cls_mem (NotIn cs) c = (c \<notin> set cs)"
| "cls_mem Digit c = (c \<in> set ''0123456789'')"

datatype item = Lit string | LitCI string | One cls | Star cls | Plus cls

text \<open>
  \<open>match_items re s\<close> matches the expression at the start of \<open>s\<close> and returns the number
  of characters each item has taken. A repetition first tries to take one more character
  and gives it back only when the rest of the expression fails.
\<close>

fun match_items :: "item list \<Rightarrow> string \<Rightarrow> nat list option" where
  "match_items [] s = Some []"
| "match_items (Lit l # r) s =
     (if starts_with l s
      then map_option (Cons (length l)) (match_items r (drop (length l) s)) else None)"
| "match_items (LitCI l # r) s =
     (if starts_with_ci l s
      then map_option (Cons (length l)) (match_items r (drop (length l) s)) else None)"
| "match_items (One c # r) [] = None"
| "match_items (One c # r) (x # xs) =
     (if cls_mem c x then map_option (Cons 1) (match_items r xs) else None)"
| "match_items (Star c # r) [] = map_option (Cons 0) (match_items r [])"
| "match_items (Star c # r) (x # xs) =
     (if cls_mem c x
      then (case match_items (Star c # r) xs of
              Some (k # ls) \<Rightarrow> Some (Suc k # ls)
            | _ \<Rightarrow> map_option (Cons 0) (match_items r (x # xs)))
      else map_option (Cons 0) (match_items r (x # xs)))"
| "match_items (Plus c # r) [] = None"
| "match_items (Plus c # r) (x # xs) =
     (if cls_mem c x
      then (case match_items (Star c # r) xs of
              Some (k # ls) \<Rightarrow> Some (Suc k # ls)
            | _ \<Rightarrow> None)
      else None)"

text \<open>The leftmost match: its start and the lengths of its items.\<close>

fun search :: "item list \<Rightarrow> string \<Rightarrow> (nat \<times> nat list) option" where
  "search re [] = map_option (Pair 0) (match_items re [])"
| "search re (x # xs) =
     (case match_items re (x # xs) of
        Some ls \<Rightarrow> Some (0, ls)
      | None \<Rightarrow> map_option (\<lambda>(i, ls). (Suc i, ls)) (search re xs))"

text \<open>
  Replacing every match, from left to right and without overlap (\<^verbatim>\<open>replace\<close> with the
  flag \<^verbatim>\<open>g\<close>, \<^verbatim>\<open>ReplaceAllStringFunc\<close>, \<^verbatim>\<open>strings.Replace\<close> with count
  \<open>-1\<close>); the replacement is computed from the matched text. No expression of the
  program matches the empty string; such a match would be replaced in front of the next
  character, as JavaScript does.
\<close>

function replace_all :: "item list \<Rightarrow> (string \<Rightarrow> string) \<Rightarrow> string \<Rightarrow> string" where
  "replace_all re f [] = (case match_items re [] of Some ls \<Rightarrow> f [] | None \<Rightarrow> [])"
| "replace_all re f (x # xs) =
     (case match_items re (x # xs) of
        None \<Rightarrow> x # replace_all re f xs
      | Some ls \<Rightarrow>
          (let n = sum_list ls
           in if n = 0 then f [] @ x # replace_all re f xs
              else f (take n (x # xs)) @ replace_all re f (drop n (x # xs))))"
  by pat_completeness auto
termination
proof (relation "measure (\<lambda>(re, f, s). length s)")
  fix re :: "item list" and f :: "string \<Rightarrow> string" and x xs ls and n :: nat
  assume "n = sum_list ls" and "n \<noteq> 0"
  then show "((re, f, drop n (x # xs)), (re, f, x # xs)) \<in> measure (\<lambda>(re, f, s). length s)"
    by (cases n) simp_all
qed simp_all

text \<open>
  Replacing the leftmost match only (\<^verbatim>\<open>replace\<close> without the flag \<^verbatim>\<open>g\<close>,
  \<^verbatim>\<open>strings.Replace\<close> with count \<open>1\<close>).
\<close>

definition replace_first :: "item list \<Rightarrow> (string \<Rightarrow> string) \<Rightarrow> string \<Rightarrow> string" where
  "replace_first re f s =
     (case search re s of
        None \<Rightarrow> s
      | Some (i, ls) \<Rightarrow>
          (let n = sum_list ls in take i s @ f (take n (drop i s)) @ drop (i + n) s))"

section \<open>Markdown post-processing\<close>

subsection \<open>processMultiLineLinks\<close>

text \<open>
  The body of the \<^verbatim>\<open>for\<close> loop of \<^verbatim>\<open>processMultiLineLinks\<close>: the characters
  still to be read, the string built so far and the counter \<^verbatim>\<open>linkOpenCount\<close>.
  \<^verbatim>\<open>insideLinkContent\<close> is assigned in every iteration before it is read.
\<close>

fun pml_loop :: "string \<Rightarrow> string \<Rightarrow> int \<Rightarrow> string" where
  "pml_loop [] newMarkdownContent linkOpenCount = newMarkdownContent"
| "pml_loop (char # rest) newMarkdownContent linkOpenCount =
     (let linkOpenCount' =
            (if char = CHR ''['' then linkOpenCount + 1
             else if char = CHR '']'' then max 0 (linkOpenCount - 1)
             else linkOpenCount);
          insideLinkContent = (linkOpenCount' > 0)
      in if insideLinkContent \<and> char = newline
         then pml_loop rest (newMarkdownContent @ [backslash, newline]) linkOpenCount'
         else pml_loop rest (newMarkdownContent @ [char]) linkOpenCount')"

definition processMultiLineLinks :: "string \<Rightarrow> string" where
  "processMultiLineLinks markdownContent = pml_loop markdownContent [] 0"

text \<open>
  The scan as the specification words it: the depth counter after a prefix of the input
  (up on an opening bracket, down but never below zero on a closing one), and what is
  written for the character at position \<open>i\<close>.
\<close>

definition depth_step :: "int \<Rightarrow> char \<Rightarrow> int" where
  "depth_step d c =
     (if c = CHR ''['' then d + 1 else if c = CHR '']'' then max 0 (d - 1) else d)"

definition linkOpenDepth :: "string \<Rightarrow> int" where
  "linkOpenDepth scanned = foldl depth_step 0 scanned"

definition escape_at :: "string \<Rightarrow> nat \<Rightarrow> string" where
  "escape_at s i =
     (if 0 < linkOpenDepth (take (Suc i) s) \<and> s ! i = newline
      then [backslash, newline] else [s ! i])"

subsection \<open>removeSkipToContentLinks\<close>

text \<open>
  \<^verbatim>\<open>markdownContent.replace(/\[Skip to Content\]\(#[^\)]*\)/gi, "")\<close>
\<close>

definition skip_re :: "item list" where
  "skip_re = [LitCI ''[Skip to Content](#'', Star (NotIn '')''), Lit '')'']"

definition removeSkipToContentLinks :: "string \<Rightarrow> string" where
  "removeSkipToContentLinks markdownContent = replace_all skip_re (\<lambda>m. []) markdownContent"

section \<open>The image rule of the fallback renderer\<close>

text \<open>
  A DOM node is seen through \<^verbatim>\<open>getAttribute\<close>: the value of an attribute, or
  \<^verbatim>\<open>null\<close>. \<open>js_or\<close> is \<^verbatim>\<open>a || b\<close> on such values (\<^verbatim>\<open>null\<close> and the empty
  string are falsy), \<open>or_empty\<close> is \<^verbatim>\<open>a || ""\<close>.
\<close>

type_synonym node = "string \<Rightarrow> string option"

definition truthy :: "string option \<Rightarrow> bool" where
  "truthy a = (case a of Some v \<Rightarrow> v \<noteq> [] | None \<Rightarrow> False)"

definition js_or :: "string option \<Rightarrow> string option \<Rightarrow> string option" where
  "js_or a b = (if truthy a then a else b)"

definition or_empty :: "string option \<Rightarrow> string" where
  "or_empty a = (case a of Some v \<Rightarrow> v | None \<Rightarrow> [])"

text \<open>The filter of the rule \<^verbatim>\<open>wechatImages\<close>, on the node name and the attributes.\<close>

definition wechatImages_filter :: "string \<Rightarrow> node \<Rightarrow> bool" where
  "wechatImages_filter nodeName getAttribute =
     (if nodeName \<noteq> ''IMG'' then False
      else (let hasDataSrc = (getAttribute ''data-src'' \<noteq> None);
                className = or_empty (getAttribute ''class'');
                hasWechatClass =
                  (str_includes ''rich_pages'' className \<or> str_includes ''wxw-img'' className);
                src = or_empty (getAttribute ''src'');
                hasWechatSrc = (str_includes ''wx_fmt='' src \<or> str_includes ''mmbiz.qpic.cn'' src)
            in hasDataSrc \<or> hasWechatClass \<or> hasWechatSrc))"

definition possibleAttrs :: "string list" where
  "possibleAttrs = [''data-backsrc'', ''data-fail-src'', ''data-original'', ''data-backupSrc'']"

text \<open>The \<^verbatim>\<open>for\<close> loop over \<^verbatim>\<open>possibleAttrs\<close>, left by \<^verbatim>\<open>break\<close> at the first hit.\<close>

fun scan_attrs :: "node \<Rightarrow> string list \<Rightarrow> string \<Rightarrow> string" where
  "scan_attrs getAttribute [] src = src"
| "scan_attrs getAttribute (attr # rest) src =
     (case getAttribute attr of
        Some attrValue \<Rightarrow>
          (if attrValue \<noteq> [] \<and> starts_with ''http'' attrValue then attrValue
           else scan_attrs getAttribute rest src)
      | None \<Rightarrow> scan_attrs getAttribute rest src)"

text \<open>
  \<^verbatim>\<open>src.replace(/&wx_lazy=\d+/, "").replace(/&wx_co=\d+/, "")\<close>: neither expression
  carries the flag \<^verbatim>\<open>g\<close>.
\<close>

definition strip_lazy_params :: "string \<Rightarrow> string" where
  "strip_lazy_params src =
     replace_first [Lit ''&wx_co='', Plus Digit] (\<lambda>m. [])
       (replace_first [Lit ''&wx_lazy='', Plus Digit] (\<lambda>m. []) src)"

text \<open>The value of \<^verbatim>\<open>src\<close> that the replacement function of the rule writes out.\<close>

definition wechatImages_src :: "node \<Rightarrow> string" where
  "wechatImages_src getAttribute =
     (let src = or_empty (js_or (getAttribute ''data-src'') (getAttribute ''src''));
          src' = (if str_includes ''data:image/svg'' src \<and> \<not> truthy (getAttribute ''data-src'')
                  then scan_attrs getAttribute possibleAttrs src else src)
      in strip_lazy_params src')"

text \<open>
  The replacement function. The default \<^verbatim>\<open>alt\<close> text is two Chinese characters,
  given here by their UTF-8 bytes.
\<close>

definition default_alt :: string where
  "default_alt = [CHR 0xE5, CHR 0x9B, CHR 0xBE, CHR 0xE7, CHR 0x89, CHR 0x87]"

definition wechatImages_replacement :: "node \<Rightarrow> string" where
  \<open>wechatImages_replacement getAttribute =
     (let src = wechatImages_src getAttribute;
          alt = (if truthy (getAttribute ''alt'') then or_empty (getAttribute ''alt'')
                 else default_alt);
          title = or_empty (getAttribute ''title'')
      in if title \<noteq> [] then ''!['' @ alt @ '']('' @ src @ '' "'' @ title @ ''")''
         else ''!['' @ alt @ '']('' @ src @ '')'')\<close>

section \<open>The native side: processWechatLazyImages\<close>

definition quote :: cls where
  "quote = In [CHR 0x22, CHR 0x27]"

definition not_quote :: cls where
  "not_quote = NotIn [CHR 0x22, CHR 0x27]"

definition not_gt :: cls where
  "not_gt = NotIn ''>''"

definition dataSrcRegex :: "item list" where
  "dataSrcRegex =
     [Lit ''<img'', Star not_gt, Lit ''data-src='', One quote, Plus not_quote, One quote,
      Star not_gt, Lit ''>'']"

definition srcRegex :: "item list" where
  "srcRegex = [Lit ''src='', One quote, Plus not_quote, One quote]"

definition svgPlaceholderRegex :: "item list" where
  "svgPlaceholderRegex =
     [Lit ''src='', One quote, Lit ''data:image/svg'', Plus not_quote, One quote]"

definition attrRegex :: "string \<Rightarrow> item list" where
  "attrRegex attr = [Lit (attr @ ''=''), One quote, Plus not_quote, One quote]"

text \<open>
  The text of a match, and the text taken by item \<open>k\<close> of the expression: item 4 of
  \<open>dataSrcRegex\<close> is its second capture group, item 2 of \<open>attrRegex\<close> its first.
\<close>

definition matched :: "string \<Rightarrow> nat \<times> nat list \<Rightarrow> string" where
  "matched s m = (case m of (i, ls) \<Rightarrow> take (sum_list ls) (drop i s))"

definition submatch :: "string \<Rightarrow> nat \<times> nat list \<Rightarrow> nat \<Rightarrow> string" where
  "submatch s m k = (case m of (i, ls) \<Rightarrow> take (ls ! k) (drop (i + sum_list (take k ls)) s))"

text \<open>
  \<^verbatim>\<open>ReplaceAllString\<close> expands its replacement as a template: \<^verbatim>\<open>$$\<close> is a dollar
  sign, \<^verbatim>\<open>$name\<close> and \<^verbatim>\<open>${name}\<close> stand for a capture group, and a dollar sign that
  no name follows stays. \<open>srcRegex\<close> has no capture group, so the name \<^verbatim>\<open>0\<close> gives the
  matched text and every other name the empty string. A name is scanned here over ASCII
  letters, digits and the underscore; Go takes letters and digits outside ASCII into a
  name as well.
\<close>

definition name_char :: "char \<Rightarrow> bool" where
  "name_char c =
     (c \<in> set ''abcdefghijklmnopqrstuvwxyzABCDEFGHIJKLMNOPQRSTUVWXYZ0123456789_'')"

definition extract_name :: "string \<Rightarrow> (string \<times> string) option" where
  "extract_name str =
     (let brace = starts_with ''{'' str;
          str' = (if brace then drop 1 str else str);
          name = takeWhile name_char str';
          rest = drop (length name) str'
      in if name = [] then None
         else if brace then (if starts_with ''}'' rest then Some (name, drop 1 rest) else None)
         else Some (name, rest))"

function go_expand :: "string \<Rightarrow> string \<Rightarrow> string" where
  "go_expand [] m = []"
| "go_expand (c # template) m =
     (if c \<noteq> CHR ''$'' then c # go_expand template m
      else if starts_with ''$'' template then CHR ''$'' # go_expand (drop 1 template) m
      else (case extract_name template of
              None \<Rightarrow> CHR ''$'' # go_expand template m
            | Some (name, rest) \<Rightarrow>
                (if name = ''0'' then m else []) @
                go_expand rest m))"
  by pat_completeness auto
termination
proof (relation "measure (\<lambda>(template, m). length template)")
  fix c :: char and template m x2 name rest
  assume "extract_name template = Some x2" and "(name, rest) = x2"
  then have "extract_name template = Some (name, rest)" by simp
  then have "length rest \<le> length template"
    by (auto simp: extract_name_def Let_def split: if_splits)
  then show "((rest, m), (c # template, m)) \<in> measure (\<lambda>(template, m). length template)"
    by simp
qed simp_all

text \<open>The function given to \<^verbatim>\<open>ReplaceAllStringFunc\<close> for an image tag with a \<^verbatim>\<open>data-src\<close>.\<close>

definition dataSrc_replacement :: "string \<Rightarrow> string" where
  \<open>dataSrc_replacement match =
     (case search dataSrcRegex match of
        None \<Rightarrow> match
      | Some m \<Rightarrow>
          (let dataSrc = submatch match m 4;
               dataSrc' = replace_all [Lit ''&wx_lazy=1''] (\<lambda>m. []) dataSrc;
               dataSrc'' = replace_all [Lit ''&wx_co=1''] (\<lambda>m. []) dataSrc'
           in if search srcRegex match \<noteq> None
              then replace_all srcRegex (go_expand (''src="'' @ dataSrc'' @ ''"'')) match
              else replace_first [Lit ''<img ''] (\<lambda>m. ''<img src="'' @ dataSrc'' @ ''" '') match))\<close>

definition go_possibleAttrs :: "string list" where
  "go_possibleAttrs = [''data-src'', ''data-backsrc'', ''data-original'', ''data-failsrc'']"

text \<open>The loop over the attributes of the image tag, left by \<^verbatim>\<open>return\<close> at the first hit.\<close>

fun scan_imgTag :: "string \<Rightarrow> string list \<Rightarrow> string option" where
  "scan_imgTag imgTag [] = None"
| \<open>scan_imgTag imgTag (attr # rest) =
     (case search (attrRegex attr) imgTag of
        Some attrMatch \<Rightarrow>
          (if starts_with ''http'' (submatch imgTag attrMatch 2)
           then Some (''src="'' @ submatch imgTag attrMatch 2 @ ''"'')
           else scan_imgTag imgTag rest)
      | None \<Rightarrow> scan_imgTag imgTag rest)\<close>

text \<open>
  The function given to \<^verbatim>\<open>ReplaceAllStringFunc\<close> for a placeholder: it looks the tag up
  in the whole document \<open>html\<close>, by the quoted text of the match.
\<close>

definition svg_replacement :: "string \<Rightarrow> string \<Rightarrow> string" where
  "svg_replacement html match =
     (case search [Lit ''<img'', Star not_gt, Lit match, Star not_gt, Lit ''>''] html of
        None \<Rightarrow> match
      | Some m \<Rightarrow>
          (let imgTag = matched html m
           in if imgTag \<noteq> []
              then (case scan_imgTag imgTag go_possibleAttrs of Some r \<Rightarrow> r | None \<Rightarrow> match)
              else match))"

definition processWechatLazyImages :: "string \<Rightarrow> string" where
  "processWechatLazyImages html =
     (let html' = replace_all dataSrcRegex dataSrc_replacement html
      in replace_all svgPlaceholderRegex (svg_replacement html') html')"

text \<open>
  An image tag written out from its attributes, each value in double quotes, and the node
  an HTML parser makes of it: the first of two attributes of one name counts, and the name
  of an attribute is compared without regard to the case of ASCII letters, as the parser
  and \<^verbatim>\<open>getAttribute\<close> both lower-case it. The values are taken to hold no character
  references, which a parser would decode.
\<close>

definition img_tag :: "(string \<times> string) list \<Rightarrow> string" where
  \<open>img_tag attrs = ''<img'' @ concat (map (\<lambda>(k, v). '' '' @ k @ ''="'' @ v @ ''"'') attrs) @ ''>''\<close>

definition img_node :: "(string \<times> string) list \<Rightarrow> node" where
  "img_node attrs name =
     map_of (map (\<lambda>(k, v). (map canonicalize k, v)) attrs) (map canonicalize name)"

section \<open>parseMarkdown\<close>

text \<open>
  The argument of \<^verbatim>\<open>parseMarkdown\<close> is a string, \<^verbatim>\<open>null\<close> or \<^verbatim>\<open>undefined\<close>. A
  thrown value is an \<^verbatim>\<open>Error\<close> object with its name and message, another value with
  its string form, or a value that has no string form (a symbol, for one) with the message
  of the \<^verbatim>\<open>TypeError\<close> that converting it to a string raises.
\<close>

datatype js_value = Null | Undefined | Str string

datatype js_error = JsError string string | NonError string | NoStringForm string

text \<open>
  A call, or a promise that is awaited, returns a value, throws, or never settles.
\<close>

datatype 'a outcome = Returned 'a | Thrown js_error | Pending

text \<open>
  What the call does to the outside, in order: the file check and the library load of
  \<^verbatim>\<open>getInstance\<close>, the native conversion, the loading and configuring of the fallback
  renderer, its conversion, the telemetry report and the two log levels.
\<close>

datatype event =
    Stat
  | Load
  | Convert string
  | Configure
  | Turndown string
  | CaptureException js_error
  | LogError string
  | LogWarn string

text \<open>
  The collaborators that are not part of the program: the environment variable, the
  outcome of \<^verbatim>\<open>stat\<close>, of loading the library in the constructor, of the native function
  for a document, of loading and configuring the fallback renderer (the two \<^verbatim>\<open>require\<close>
  calls, \<^verbatim>\<open>new TurndownService()\<close>, the two \<^verbatim>\<open>addRule\<close> calls and \<^verbatim>\<open>use\<close>), and of
  the \<^verbatim>\<open>turndown\<close> call for a document (the tree walk with the rules registered before
  it). The logger and the telemetry client return.
\<close>

record world =
  USE_GO_MARKDOWN_PARSER :: "string option"
  stat_result :: "unit outcome"
  load_result :: "unit outcome"
  convert_async :: "string \<Rightarrow> string outcome"
  configure_result :: "unit outcome"
  turndown :: "string \<Rightarrow> string outcome"

text \<open>
  The state of the process: the static field \<^verbatim>\<open>GoMarkdownConverter.instance\<close> (the
  number of the cached object, if any), the number of objects constructed so far, and the
  events so far.
\<close>

record state =
  cached_instance :: "nat option"
  constructed :: nat
  trace :: "event list"

type_synonym 'a io = "state \<Rightarrow> 'a outcome \<times> state"

definition returns :: "'a \<Rightarrow> 'a io" where
  "returns v s = (Returned v, s)"

definition throws :: "js_error \<Rightarrow> 'a io" where
  "throws e s = (Thrown e, s)"

definition settle :: "'a outcome \<Rightarrow> 'a io" where
  "settle r s = (r, s)"

definition and_then :: "'a io \<Rightarrow> ('a \<Rightarrow> 'b io) \<Rightarrow> 'b io" where
  "and_then m f s =
     (case m s of
        (Returned v, s') \<Rightarrow> f v s'
      | (Thrown e, s') \<Rightarrow> (Thrown e, s')
      | (Pending, s') \<Rightarrow> (Pending, s'))"

definition try_catch :: "'a io \<Rightarrow> (js_error \<Rightarrow> 'a io) \<Rightarrow> 'a io" where
  "try_catch body handler s =
     (case body s of
        (Returned v, s') \<Rightarrow> (Returned v, s')
      | (Thrown e, s') \<Rightarrow> handler e s'
      | (Pending, s') \<Rightarrow> (Pending, s'))"

definition emit :: "event \<Rightarrow> unit io" where
  "emit ev s = (Returned (), s\<lparr>trace := trace s @ [ev]\<rparr>)"

text \<open>
  The conversion of a thrown value to a string in a template literal. An \<^verbatim>\<open>Error\<close>
  object is written as \<^verbatim>\<open>Error.prototype.toString\<close> writes it.
\<close>

definition error_toString :: "string \<Rightarrow> string \<Rightarrow> string" where
  "error_toString name message =
     (if name = [] then message else if message = [] then name else name @ '': '' @ message)"

definition string_form :: "js_error \<Rightarrow> string option" where
  "string_form error =
     (case error of
        JsError name message \<Rightarrow> Some (error_toString name message)
      | NonError str \<Rightarrow> Some str
      | NoStringForm message \<Rightarrow> None)"

definition template_string :: "js_error \<Rightarrow> string io" where
  "template_string error =
     (case error of
        JsError name message \<Rightarrow> returns (error_toString name message)
      | NonError str \<Rightarrow> returns str
      | NoStringForm message \<Rightarrow> throws (JsError ''TypeError'' message))"

subsection \<open>GoMarkdownConverter\<close>

text \<open>
  \<^verbatim>\<open>getInstance\<close> runs in two parts, with \<^verbatim>\<open>await stat(...)\<close> between them. The first
  part reads the static field: it returns the cached object, or starts the file check and
  suspends (\<open>None\<close>). The second part runs when the file check has settled: it throws, or
  constructs the object (which loads the library), stores it in the field and returns it.
  It never runs when the file check does not settle.
\<close>

definition getInstance_begin :: "state \<Rightarrow> nat option \<times> state" where
  "getInstance_begin s =
     (case cached_instance s of
        Some i \<Rightarrow> (Some i, s)
      | None \<Rightarrow> (None, s\<lparr>trace := trace s @ [Stat]\<rparr>))"

definition new_GoMarkdownConverter :: "world \<Rightarrow> nat io" where
  "new_GoMarkdownConverter w =
     and_then (emit Load) (\<lambda>_.
     and_then (settle (load_result w)) (\<lambda>_ s.
       (Returned (constructed s), s\<lparr>constructed := Suc (constructed s)\<rparr>)))"

definition getInstance_resume :: "world \<Rightarrow> nat io" where
  "getInstance_resume w =
     (case stat_result w of
        Returned _ \<Rightarrow>
          and_then (new_GoMarkdownConverter w) (\<lambda>i s. (Returned i, s\<lparr>cached_instance := Some i\<rparr>))
      | Thrown _ \<Rightarrow> throws (JsError ''Error'' ''Go shared library not found'')
      | Pending \<Rightarrow> settle Pending)"

text \<open>One call of \<^verbatim>\<open>getInstance\<close> with nothing else running in between.\<close>

definition getInstance :: "world \<Rightarrow> nat io" where
  "getInstance w s =
     (case getInstance_begin s of
        (Some i, s') \<Rightarrow> (Returned i, s')
      | (None, s') \<Rightarrow> getInstance_resume w s')"

definition convertHTMLToMarkdown :: "world \<Rightarrow> string \<Rightarrow> string io" where
  "convertHTMLToMarkdown w html =
     and_then (emit (Convert html)) (\<lambda>_. settle (convert_async w html))"

subsection \<open>The function\<close>

text \<open>
  The first \<^verbatim>\<open>try\<close> block: \<open>Some\<close> is the value of its \<^verbatim>\<open>return\<close>, \<open>None\<close> means that
  control goes on behind the block. Its \<^verbatim>\<open>catch\<close> clause reports and goes on; the
  message of its error-level entry is a template literal that holds the thrown value.
\<close>

definition go_attempt :: "world \<Rightarrow> string \<Rightarrow> string option io" where
  "go_attempt w html =
     (if USE_GO_MARKDOWN_PARSER w = Some ''true''
      then and_then (getInstance w) (\<lambda>converter.
           and_then (convertHTMLToMarkdown w html) (\<lambda>markdownContent.
             returns (Some (removeSkipToContentLinks (processMultiLineLinks markdownContent)))))
      else returns None)"

definition go_catch :: "js_error \<Rightarrow> string option io" where
  "go_catch error =
     (if (case error of
            JsError name message \<Rightarrow> message \<noteq> ''Go shared library not found''
          | _ \<Rightarrow> True)
      then and_then (emit (CaptureException error)) (\<lambda>_.
           and_then (template_string error) (\<lambda>str.
           and_then (emit (LogError (''Error converting HTML to Markdown with Go parser: '' @ str)))
             (\<lambda>_. returns None)))
      else and_then
             (emit (LogWarn ''Tried to use Go parser, but it doesn't exist in the file system.''))
             (\<lambda>_. returns None))"

text \<open>
  Everything behind the first \<^verbatim>\<open>try\<close> statement: the fallback renderer is loaded and
  configured outside any \<^verbatim>\<open>try\<close> block, then the second \<^verbatim>\<open>try\<close> statement converts.
\<close>

definition fallback :: "world \<Rightarrow> string \<Rightarrow> string io" where
  "fallback w html =
     and_then (emit Configure) (\<lambda>_.
     and_then (settle (configure_result w)) (\<lambda>_.
       try_catch
         (and_then (emit (Turndown html)) (\<lambda>_.
          and_then (settle (turndown w html)) (\<lambda>markdownContent.
            returns (removeSkipToContentLinks (processMultiLineLinks markdownContent)))))
         (\<lambda>error. and_then (emit (LogError ''Error converting HTML to Markdown'')) (\<lambda>_.
            returns []))))"

definition falsy :: "js_value \<Rightarrow> bool" where
  "falsy html = (case html of Null \<Rightarrow> True | Undefined \<Rightarrow> True | Str h \<Rightarrow> h = [])"

definition text_of :: "js_value \<Rightarrow> string" where
  "text_of html = (case html of Str h \<Rightarrow> h | _ \<Rightarrow> [])"

definition parseMarkdown :: "world \<Rightarrow> js_value \<Rightarrow> string io" where
  "parseMarkdown w html =
     (if falsy html then returns []
      else and_then (try_catch (go_attempt w (text_of html)) go_catch) (\<lambda>r.
             (case r of
                Some markdownContent \<Rightarrow> returns markdownContent
              | None \<Rightarrow> fallback w (text_of html))))"

subsection \<open>Calls of getInstance in flight together\<close>

text \<open>
  A call of an \<^verbatim>\<open>async\<close> function runs without interruption up to an \<^verbatim>\<open>await\<close>
  and is resumed later, after anything else that was ready to run. So several calls of
  \<^verbatim>\<open>getInstance\<close> advance part by part, in the order a schedule names them. A call
  whose second part does not return is stuck.
\<close>

datatype call = NotStarted | AwaitingStat | Settled "js_error + nat" | Stuck

definition step :: "world \<Rightarrow> nat \<Rightarrow> call list \<times> state \<Rightarrow> call list \<times> state" where
  "step w k cs =
     (case cs of (calls, s) \<Rightarrow>
        if k < length calls
        then (case calls ! k of
                NotStarted \<Rightarrow>
                  (case getInstance_begin s of
                     (Some i, s') \<Rightarrow> (calls[k := Settled (Inr i)], s')
                   | (None, s') \<Rightarrow> (calls[k := AwaitingStat], s'))
              | AwaitingStat \<Rightarrow>
                  (case getInstance_resume w s of
                     (Returned i, s') \<Rightarrow> (calls[k := Settled (Inr i)], s')
                   | (Thrown e, s') \<Rightarrow> (calls[k := Settled (Inl e)], s')
                   | (Pending, s') \<Rightarrow> (calls[k := Stuck], s'))
              | Settled r \<Rightarrow> (calls, s)
              | Stuck \<Rightarrow> (calls, s))
        else (calls, s))"

definition run :: "world \<Rightarrow> nat list \<Rightarrow> call list \<times> state \<Rightarrow> call list \<times> state" where
  "run w schedule cs = foldl (\<lambda>cs k. step w k cs) cs schedule"

section \<open>Observing a call\<close>

text \<open>
  The events a computation adds to the trace; the world in which the native renderer is
  switched off, so that the fallback renderer runs alone; whether the native attempt
  delivers a result; and what the \<^verbatim>\<open>catch\<close> clause of the native attempt writes for
  a thrown value that has a string form.
\<close>

definition events_of :: "'a io \<Rightarrow> state \<Rightarrow> event list" where
  "events_of m s = drop (length (trace s)) (trace (snd (m s)))"

definition fallback_alone :: "world \<Rightarrow> world" where
  "fallback_alone w = w\<lparr>USE_GO_MARKDOWN_PARSER := None\<rparr>"

definition native_returns :: "world \<Rightarrow> string \<Rightarrow> state \<Rightarrow> bool" where
  "native_returns w h s =
     (case fst (go_attempt w h s) of Returned (Some markdownContent) \<Rightarrow> True | _ \<Rightarrow> False)"

definition component_unavailable :: "js_error \<Rightarrow> bool" where
  "component_unavailable error =
     (case error of
        JsError name message \<Rightarrow> message = ''Go shared library not found''
      | _ \<Rightarrow> False)"

definition failure_report :: "js_error \<Rightarrow> event list" where
  "failure_report error =
     (if component_unavailable error
      then [LogWarn ''Tried to use Go parser, but it doesn't exist in the file system.'']
      else (case string_form error of
              Some str \<Rightarrow>
                [CaptureException error,
                 LogError (''Error converting HTML to Markdown with Go parser: '' @ str)]
            | None \<Rightarrow> [CaptureException error]))"

text \<open>The events of the fallback renderer running alone on a document.\<close>

definition fallback_events :: "world \<Rightarrow> string \<Rightarrow> event list" where
  "fallback_events w h =
     (case configure_result w of
        Returned _ \<Rightarrow>
          (case turndown w h of
             Thrown e \<Rightarrow> [Configure, Turndown h, LogError ''Error converting HTML to Markdown'']
           | _ \<Rightarrow> [Configure, Turndown h])
      | _ \<Rightarrow> [Configure])"

text \<open>
  The collaborators behave, for a document and a state: the native attempt settles; a
  value it throws has a string form; and, unless the native attempt delivers the result,
  loading and configuring the fallback renderer returns and its conversion settles.
\<close>

definition fallback_behaves :: "world \<Rightarrow> string \<Rightarrow> bool" where
  "fallback_behaves w h =
     (configure_result w = Returned () \<and> turndown w h \<noteq> Pending)"

definition collaborators_behave :: "world \<Rightarrow> string \<Rightarrow> state \<Rightarrow> bool" where
  "collaborators_behave w h s =
     (case fst (go_attempt w h s) of
        Returned (Some markdownContent) \<Rightarrow> True
      | Returned None \<Rightarrow> fallback_behaves w h
      | Thrown e \<Rightarrow> string_form e \<noteq> None \<and> fallback_behaves w h
      | Pending \<Rightarrow> False)"

definition settles_printably :: "'a outcome \<Rightarrow> bool" where
  "settles_printably r =
     (case r of Returned v \<Rightarrow> True | Thrown e \<Rightarrow> string_form e \<noteq> None | Pending \<Rightarrow> False)"

text \<open>
  For the examples: the state of a process that has not touched the native renderer; a
  renderer that returns its input, one that throws an ordinary value, one that throws a
  symbol and one that never settles.
\<close>

definition fresh :: state where
  "fresh = \<lparr>cached_instance = None, constructed = 0, trace = []\<rparr>"

definition echo :: "string \<Rightarrow> string outcome" where
  "echo html = Returned html"

definition throwing :: "string \<Rightarrow> string outcome" where
  "throwing html = Thrown (NonError ''failed'')"

definition throwing_symbol :: "string \<Rightarrow> string outcome" where
  "throwing_symbol html = Thrown (NoStringForm ''Cannot convert a Symbol value to a string'')"

definition never_settling :: "string \<Rightarrow> string outcome" where
  "never_settling html = Pending"

text \<open>
  Worlds with the native renderer switched on: the library is missing; the library is
  there and both renderers work; both renderers throw; the native renderer throws a symbol;
  the native renderer never settles. And with it switched off: the fallback renderer
  throws; the fallback renderer cannot be loaded.
\<close>

definition library_missing :: world where
  "library_missing =
     \<lparr>USE_GO_MARKDOWN_PARSER = Some ''true'',
      stat_result = Thrown (JsError ''Error'' ''ENOENT: no such file or directory''),
      load_result = Returned (), convert_async = echo, configure_result = Returned (),
      turndown = echo\<rparr>"

definition library_present :: world where
  "library_present =
     \<lparr>USE_GO_MARKDOWN_PARSER = Some ''true'', stat_result = Returned (),
      load_result = Returned (), convert_async = echo, configure_result = Returned (),
      turndown = echo\<rparr>"

definition both_throw :: world where
  "both_throw =
     \<lparr>USE_GO_MARKDOWN_PARSER = Some ''true'', stat_result = Returned (),
      load_result = Returned (), convert_async = throwing, configure_result = Returned (),
      turndown = throwing\<rparr>"

definition native_throws_symbol :: world where
  "native_throws_symbol =
     \<lparr>USE_GO_MARKDOWN_PARSER = Some ''true'', stat_result = Returned (),
      load_result = Returned (), convert_async = throwing_symbol,
      configure_result = Returned (), turndown = echo\<rparr>"

definition native_never_settles :: world where
  "native_never_settles =
     \<lparr>USE_GO_MARKDOWN_PARSER = Some ''true'', stat_result = Returned (),
      load_result = Returned (), convert_async = never_settling,
      configure_result = Returned (), turndown = echo\<rparr>"

definition fallback_throws :: world where
  "fallback_throws =
     \<lparr>USE_GO_MARKDOWN_PARSER = None, stat_result = Returned (), load_result = Returned (),
      convert_async = echo, configure_result = Returned (), turndown = throwing\<rparr>"

definition fallback_missing :: world where
  "fallback_missing =
     \<lparr>USE_GO_MARKDOWN_PARSER = None, stat_result = Returned (), load_result = Returned (),
      convert_async = echo,
      configure_result = Thrown (JsError ''Error'' ''Cannot find module turndown''),
      turndown = echo\<rparr>"

section \<open>Skip-to-content links\<close>

text \<open>
  A skip-to-content link: the text of a Markdown link whose visible text is
  \<^verbatim>\<open>Skip to Content\<close> in any mix of upper and lower case, and whose target begins
  with \<^verbatim>\<open>#\<close> and holds no closing parenthesis. Position \<open>i\<close> of \<open>s\<close> is inside such
  a link when some substring of \<open>s\<close> that covers the position is one.
\<close>

definition is_skip_link :: "string \<Rightarrow> bool" where
  "is_skip_link l =
     (let text = take 15 (drop 1 l); target = butlast (drop 18 l)
      in l = ''['' @ text @ '']('' @ target @ '')''
         \<and> map canonicalize text = map canonicalize ''Skip to Content''
         \<and> starts_with ''#'' target \<and> CHR '')'' \<notin> set target)"

definition in_skip_link :: "string \<Rightarrow> nat \<Rightarrow> bool" where
  "in_skip_link s i =
     (\<exists>a\<in>{..i}. \<exists>b\<in>{i<..length s}. is_skip_link (take (b - a) (drop a s)))"

text \<open>The text of an inline Markdown link with a visible text and a target.\<close>

definition markdown_link :: "string \<Rightarrow> string \<Rightarrow> string" where
  "markdown_link visible target = ''['' @ visible @ '']('' @ target @ '')''"

text \<open>
  For the proofs: the opening of such a link, and the length of the link that starts a
  string, if one does.
\<close>

definition skip_prefix :: string where
  "skip_prefix = ''[Skip to Content](#''"

definition link_len :: "string \<Rightarrow> nat option" where
  "link_len s =
     (if starts_with_ci skip_prefix s \<and> CHR '')'' \<in> set (drop (length skip_prefix) s)
      then Some (length skip_prefix +
                 length (takeWhile (\<lambda>c. c \<noteq> CHR '')'') (drop (length skip_prefix) s)) + 1)
      else None)"

section \<open>Properties of the post-processor\<close>

lemma pml_loop_Cons:
  "pml_loop (c # cs) acc d =
     pml_loop cs (acc @ (if 0 < depth_step d c \<and> c = newline then [backslash, newline] else [c]))
       (depth_step d c)"
  by (simp add: depth_step_def Let_def)

lemma pml_loop_scan:
  "pml_loop s acc d =
     acc @ concat (map (\<lambda>i. if 0 < foldl depth_step d (take (Suc i) s) \<and> s ! i = newline
                              then [backslash, newline] else [s ! i]) [0..<length s])"
proof (induction s arbitrary: acc d)
  case Nil
  show ?case by simp
next
  case (Cons c cs)
  show ?case
    unfolding length_Cons map_upt_Suc
    by (simp add: pml_loop_Cons Cons.IH del: pml_loop.simps cong: if_cong)
qed

lemma pml_loop_no_brackets:
  "CHR ''['' \<notin> set s \<Longrightarrow> CHR '']'' \<notin> set s \<Longrightarrow> pml_loop s acc 0 = acc @ s"
  by (induction s arbitrary: acc) auto

lemma pml_example:
  "processMultiLineLinks (''[a'' @ [newline] @ ''b](http://x)'') =
     ''[a'' @ [backslash, newline] @ ''b](http://x)''"
  by (simp add: processMultiLineLinks_def newline_def backslash_def)

text \<open>
  C3. \<^verbatim>\<open>processMultiLineLinks\<close> is one left-to-right scan: the character at position
  \<open>i\<close> is written unchanged, except that a newline read while the bracket depth (up on
  an opening bracket, down and floored at zero on a closing one) is positive is written as
  a backslash followed by the newline. The input \<^verbatim>\<open>[a\nb](http://x)\<close> gives
  \<^verbatim>\<open>[a\\\nb](http://x)\<close>, and an input without brackets is returned as it is.
\<close>

theorem processMultiLineLinks_scan:
  "processMultiLineLinks s = concat (map (escape_at s) [0..<length s])
   \<and> processMultiLineLinks (''[a'' @ [newline] @ ''b](http://x)'') =
       ''[a'' @ [backslash, newline] @ ''b](http://x)''
   \<and> (CHR ''['' \<notin> set s \<and> CHR '']'' \<notin> set s \<longrightarrow> processMultiLineLinks s = s)"
proof (intro conjI impI)
  show "processMultiLineLinks s = concat (map (escape_at s) [0..<length s])"
    unfolding processMultiLineLinks_def
    by (simp add: pml_loop_scan escape_at_def linkOpenDepth_def cong: map_cong)
  show "processMultiLineLinks (''[a'' @ [newline] @ ''b](http://x)'') =
       ''[a'' @ [backslash, newline] @ ''b](http://x)''"
    by (rule pml_example)
  show "processMultiLineLinks s = s" if "CHR ''['' \<notin> set s \<and> CHR '']'' \<notin> set s"
    using that pml_loop_no_brackets [of s "[]"] by (simp add: processMultiLineLinks_def)
qed

theorem processMultiLineLinks_scan_witness:
  "CHR ''['' \<notin> set (''plain'' @ [newline] @ ''text'')
   \<and> CHR '']'' \<notin> set (''plain'' @ [newline] @ ''text'')
   \<and> processMultiLineLinks (''plain'' @ [newline] @ ''text'') = ''plain'' @ [newline] @ ''text''"
proof -
  have no_open: "CHR ''['' \<notin> set (''plain'' @ [newline] @ ''text'')"
    by (simp add: newline_def)
  have no_close: "CHR '']'' \<notin> set (''plain'' @ [newline] @ ''text'')"
    by (simp add: newline_def)
  from processMultiLineLinks_scan [of "''plain'' @ [newline] @ ''text''"] no_open no_close
  show ?thesis by blast
qed

text \<open>
  C10. The transform is not idempotent: on \<^verbatim>\<open>[a\nb](x)\<close> the first pass writes
  a backslash before the newline, and the second pass, which meets the same newline at
  depth one again, writes another.
\<close>

theorem processMultiLineLinks_not_idempotent:
  "processMultiLineLinks (''[a'' @ [newline] @ ''b](x)'') = ''[a'' @ [backslash, newline] @ ''b](x)''
   \<and> processMultiLineLinks (processMultiLineLinks (''[a'' @ [newline] @ ''b](x)'')) =
       ''[a'' @ [backslash, backslash, newline] @ ''b](x)''
   \<and> (\<exists>s. processMultiLineLinks (processMultiLineLinks s) \<noteq> processMultiLineLinks s)"
proof -
  have once: "processMultiLineLinks (''[a'' @ [newline] @ ''b](x)'') =
      ''[a'' @ [backslash, newline] @ ''b](x)''"
    by (simp add: processMultiLineLinks_def newline_def backslash_def)
  have twice: "processMultiLineLinks (''[a'' @ [backslash, newline] @ ''b](x)'') =
      ''[a'' @ [backslash, backslash, newline] @ ''b](x)''"
    by (simp add: processMultiLineLinks_def newline_def backslash_def)
  have differ: "processMultiLineLinks (processMultiLineLinks (''[a'' @ [newline] @ ''b](x)'')) \<noteq>
      processMultiLineLinks (''[a'' @ [newline] @ ''b](x)'')"
    unfolding once twice by simp
  then have "\<exists>s. processMultiLineLinks (processMultiLineLinks s) \<noteq> processMultiLineLinks s"
    by (rule exI)
  moreover have "processMultiLineLinks (processMultiLineLinks (''[a'' @ [newline] @ ''b](x)'')) =
       ''[a'' @ [backslash, backslash, newline] @ ''b](x)''"
    unfolding once by (rule twice)
  ultimately show ?thesis using once by blast
qed

section \<open>Properties of removeSkipToContentLinks\<close>

lemma starts_with_iff: "starts_with p s \<longleftrightarrow> take (length p) s = p"
  by (induction p s rule: starts_with.induct) auto

lemma starts_with_ci_iff:
  "starts_with_ci p s \<longleftrightarrow>
     length p \<le> length s \<and> map canonicalize (take (length p) s) = map canonicalize p"
  by (induction p s rule: starts_with_ci.induct) auto

lemma star_close:
  "match_items [Star (NotIn '')''), Lit '')''] s =
     (if CHR '')'' \<in> set s then Some [length (takeWhile (\<lambda>c. c \<noteq> CHR '')'') s), 1] else None)"
  by (induction s) auto

lemma skip_re_prefix: "skip_re = [LitCI skip_prefix, Star (NotIn '')''), Lit '')'']"
  by (simp add: skip_re_def skip_prefix_def)

lemma match_skip_re: "map_option sum_list (match_items skip_re s) = link_len s"
  by (simp add: skip_re_prefix link_len_def star_close)

lemma takeWhile_neq_less:
  "x \<in> set xs \<Longrightarrow> length (takeWhile (\<lambda>c. c \<noteq> x) xs) < length xs"
  by (induction xs) auto

lemma link_len_bounds:
  assumes "link_len s = Some n"
  shows "length skip_prefix < n" and "n \<le> length s"
proof -
  let ?d = "drop (length skip_prefix) s"
  from assms have sw: "starts_with_ci skip_prefix s" and mem: "CHR '')'' \<in> set ?d"
    and n: "n = length skip_prefix + length (takeWhile (\<lambda>c. c \<noteq> CHR '')'') ?d) + 1"
    by (auto simp: link_len_def split: if_splits)
  show "length skip_prefix < n" using n by simp
  have "length (takeWhile (\<lambda>c. c \<noteq> CHR '')'') ?d) < length ?d"
    using mem by (rule takeWhile_neq_less)
  moreover have "length skip_prefix \<le> length s" using sw by (simp add: starts_with_ci_iff)
  ultimately show "n \<le> length s" using n by simp
qed

lemma removeSkip_Nil: "removeSkipToContentLinks [] = []"
  by (simp add: removeSkipToContentLinks_def skip_re_def)

lemma removeSkip_Cons:
  "removeSkipToContentLinks (x # xs) =
     (case link_len (x # xs) of
        None \<Rightarrow> x # removeSkipToContentLinks xs
      | Some n \<Rightarrow> removeSkipToContentLinks (drop n (x # xs)))"
proof (cases "match_items skip_re (x # xs)")
  case None
  with match_skip_re [of "x # xs"] have "link_len (x # xs) = None" by simp
  with None show ?thesis by (simp add: removeSkipToContentLinks_def)
next
  case (Some ls)
  with match_skip_re [of "x # xs"] have ll: "link_len (x # xs) = Some (sum_list ls)" by simp
  from link_len_bounds(1) [OF ll] have "sum_list ls \<noteq> 0" by linarith
  with Some ll show ?thesis by (auto simp: removeSkipToContentLinks_def Let_def)
qed

lemma canonicalize_cases:
  "canonicalize c = c \<or> canonicalize c \<in> set ''ABCDEFGHIJKLMNOPQRSTUVWXYZ''"
proof (cases "map_of (zip ''abcdefghijklmnopqrstuvwxyz'' ''ABCDEFGHIJKLMNOPQRSTUVWXYZ'') c")
  case None
  then show ?thesis by (simp add: canonicalize_def)
next
  case (Some u)
  then have "(c, u) \<in> set (zip ''abcdefghijklmnopqrstuvwxyz'' ''ABCDEFGHIJKLMNOPQRSTUVWXYZ'')"
    by (rule map_of_SomeD)
  then have "u \<in> set ''ABCDEFGHIJKLMNOPQRSTUVWXYZ''" by (rule set_zip_rightD)
  with Some show ?thesis by (simp add: canonicalize_def)
qed

lemma canonicalize_punct:
  assumes "d \<in> set ''[]()#''"
  shows "canonicalize c = canonicalize d \<longleftrightarrow> c = d"
proof -
  have fixed: "\<forall>e \<in> set ''[]()#''. canonicalize e = e"
    by (simp add: canonicalize_def)
  have disj: "\<forall>e \<in> set ''[]()#''. e \<notin> set ''ABCDEFGHIJKLMNOPQRSTUVWXYZ''"
    by simp
  have d: "canonicalize d = d" using assms fixed by blast
  have "c = d" if "canonicalize c = d"
    using canonicalize_cases [of c] assms disj that by metis
  with d show ?thesis by auto
qed

lemma map_canonicalize_punct:
  "set q \<subseteq> set ''[]()#'' \<Longrightarrow> map canonicalize xs = map canonicalize q \<longleftrightarrow> xs = q"
proof (induction xs arbitrary: q)
  case Nil
  then show ?case by auto
next
  case (Cons x xs)
  then show ?case by (cases q) (auto simp: canonicalize_punct)
qed

lemma map_canonicalize_punctD:
  "map canonicalize xs = map canonicalize q \<Longrightarrow> set q \<subseteq> set ''[]()#'' \<Longrightarrow> xs = q"
  using map_canonicalize_punct by blast

lemma takeWhile_until:
  "x \<notin> set tw \<Longrightarrow> takeWhile (\<lambda>c. c \<noteq> x) (tw @ x # r) = tw"
  by (induction tw) auto

lemma is_skip_link_decomp:
  "is_skip_link l \<longleftrightarrow>
     (\<exists>p tw. l = p @ tw @ '')'' \<and> length p = length skip_prefix
        \<and> map canonicalize p = map canonicalize skip_prefix \<and> CHR '')'' \<notin> set tw)"
  (is "?L \<longleftrightarrow> ?R")
proof
  assume ?L
  define vis where "vis = take 15 (drop 1 l)"
  define dest where "dest = butlast (drop 18 l)"
  from \<open>?L\<close> have l: "l = ''['' @ vis @ '']('' @ dest @ '')''"
    and ci: "map canonicalize vis = map canonicalize ''Skip to Content''"
    and sw: "starts_with ''#'' dest" and nc: "CHR '')'' \<notin> set dest"
    by (simp_all add: is_skip_link_def vis_def dest_def Let_def)
  from sw obtain tw where tg: "dest = CHR ''#'' # tw"
    by (cases dest) (auto split: if_splits)
  from ci have "length (map canonicalize vis) = length (map canonicalize ''Skip to Content'')"
    by simp
  then have len: "length vis = 15" by simp
  let ?p = "''['' @ vis @ ''](#''"
  have "l = ?p @ tw @ '')''" using l tg by simp
  moreover have "length ?p = length skip_prefix" using len by (simp add: skip_prefix_def)
  moreover have "map canonicalize ?p = map canonicalize skip_prefix"
    using ci by (simp add: skip_prefix_def)
  moreover have "CHR '')'' \<notin> set tw" using nc tg by simp
  ultimately show ?R by blast
next
  assume ?R
  then obtain p tw where l: "l = p @ tw @ '')''" and len: "length p = length skip_prefix"
    and ci: "map canonicalize p = map canonicalize skip_prefix" and nc: "CHR '')'' \<notin> set tw"
    by blast
  define v where "v = take 15 (drop 1 p)"
  have lp: "length p = 19" using len by (simp add: skip_prefix_def)
  have lv: "length v = 15" using lp by (simp add: v_def)
  from ci have "take 1 (map canonicalize p) = take 1 (map canonicalize skip_prefix)" by simp
  then have "map canonicalize (take 1 p) = map canonicalize ''[''"
    by (simp add: take_map skip_prefix_def)
  then have a: "take 1 p = ''[''" by (rule map_canonicalize_punctD) simp
  from ci have "take 15 (drop 1 (map canonicalize p)) =
      take 15 (drop 1 (map canonicalize skip_prefix))" by simp
  then have b: "map canonicalize v = map canonicalize ''Skip to Content''"
    by (simp add: take_map drop_map skip_prefix_def v_def)
  from ci have "take 2 (drop 16 (map canonicalize p)) =
      take 2 (drop 16 (map canonicalize skip_prefix))" by simp
  then have "map canonicalize (take 2 (drop 16 p)) = map canonicalize ''](''"
    by (simp add: take_map drop_map skip_prefix_def)
  then have c: "take 2 (drop 16 p) = ''](''" by (rule map_canonicalize_punctD) simp
  from ci have "drop 18 (map canonicalize p) = drop 18 (map canonicalize skip_prefix)" by simp
  then have "map canonicalize (drop 18 p) = map canonicalize ''#''"
    by (simp add: drop_map skip_prefix_def)
  then have d: "drop 18 p = ''#''" by (rule map_canonicalize_punctD) simp
  have d': "drop 2 (drop 16 p) = ''#''" using d by simp
  have s1: "drop 16 p = '']('' @ ''#''"
    using append_take_drop_id [of 2 "drop 16 p"] unfolding c d' by simp
  have s1': "drop 15 (drop 1 p) = ''](#''" using s1 by simp
  have s2: "drop 1 p = v @ ''](#''"
    using append_take_drop_id [of 15 "drop 1 p"] unfolding s1' v_def [symmetric] by simp
  have p: "p = ''['' @ v @ ''](#''"
    using append_take_drop_id [of 1 p] unfolding a s2 by simp
  have l': "l = ''['' @ v @ '']('' @ (CHR ''#'' # tw) @ '')''" using l p by simp
  have vis: "take 15 (drop 1 l) = v" using lv by (simp add: l')
  have dest: "butlast (drop 18 l) = CHR ''#'' # tw" using lv by (simp add: l' butlast_append)
  show ?L
    unfolding is_skip_link_def Let_def vis dest using l' b nc by simp
qed

lemma link_len_decomp:
  "link_len t = Some n \<longleftrightarrow>
     (\<exists>p tw r. t = p @ tw @ CHR '')'' # r \<and> length p = length skip_prefix
        \<and> map canonicalize p = map canonicalize skip_prefix \<and> CHR '')'' \<notin> set tw
        \<and> n = length skip_prefix + length tw + 1)"
  (is "?L \<longleftrightarrow> ?R")
proof
  assume ?L
  let ?k = "length skip_prefix"
  let ?d = "drop ?k t"
  let ?Q = "\<lambda>c. c \<noteq> CHR '')''"
  from \<open>?L\<close> have sw: "starts_with_ci skip_prefix t" and mem: "CHR '')'' \<in> set ?d"
    and n: "n = ?k + length (takeWhile ?Q ?d) + 1"
    by (auto simp: link_len_def split: if_splits)
  from mem have ne: "dropWhile ?Q ?d \<noteq> []" by (auto simp: dropWhile_eq_Nil_conv)
  then have "\<not> ?Q (hd (dropWhile ?Q ?d))" by (rule hd_dropWhile)
  with ne obtain r where dw: "dropWhile ?Q ?d = CHR '')'' # r"
    by (cases "dropWhile ?Q ?d") auto
  have "t = take ?k t @ ?d" by simp
  also have "?d = takeWhile ?Q ?d @ dropWhile ?Q ?d" by simp
  finally have "t = take ?k t @ takeWhile ?Q ?d @ CHR '')'' # r" using dw by simp
  moreover have "length (take ?k t) = ?k" using sw by (simp add: starts_with_ci_iff)
  moreover have "map canonicalize (take ?k t) = map canonicalize skip_prefix"
    using sw by (simp add: starts_with_ci_iff)
  moreover have "CHR '')'' \<notin> set (takeWhile ?Q ?d)" by (auto dest: set_takeWhileD)
  ultimately show ?R using n by blast
next
  assume ?R
  then obtain p tw r where t: "t = p @ tw @ CHR '')'' # r" and len: "length p = length skip_prefix"
    and ci: "map canonicalize p = map canonicalize skip_prefix" and nc: "CHR '')'' \<notin> set tw"
    and n: "n = length skip_prefix + length tw + 1"
    by blast
  have sw: "starts_with_ci skip_prefix t" using len ci by (simp add: starts_with_ci_iff t)
  have d: "drop (length skip_prefix) t = tw @ CHR '')'' # r" using len by (simp add: t)
  have tw: "takeWhile (\<lambda>c. c \<noteq> CHR '')'') (tw @ CHR '')'' # r) = tw"
    using nc by (rule takeWhile_until)
  show ?L unfolding link_len_def d tw using sw n by simp
qed

lemma slice_is_skip_link:
  assumes "m \<le> length t"
  shows "is_skip_link (take m t) \<longleftrightarrow> link_len t = Some m"
proof
  assume "is_skip_link (take m t)"
  then obtain p tw where tk: "take m t = p @ tw @ '')''" and len: "length p = length skip_prefix"
    and ci: "map canonicalize p = map canonicalize skip_prefix" and nc: "CHR '')'' \<notin> set tw"
    unfolding is_skip_link_decomp by blast
  have "length (take m t) = m" using assms by simp
  then have m: "m = length skip_prefix + length tw + 1" using len by (simp add: tk)
  have "t = take m t @ drop m t" by simp
  then have "t = p @ tw @ CHR '')'' # drop m t" by (simp add: tk)
  with len ci nc m show "link_len t = Some m" unfolding link_len_decomp by blast
next
  assume "link_len t = Some m"
  then obtain p tw r where t: "t = p @ tw @ CHR '')'' # r" and len: "length p = length skip_prefix"
    and ci: "map canonicalize p = map canonicalize skip_prefix" and nc: "CHR '')'' \<notin> set tw"
    and m: "m = length skip_prefix + length tw + 1"
    unfolding link_len_decomp by blast
  have "take m t = p @ tw @ '')''" using len m by (simp add: t)
  with len ci nc show "is_skip_link (take m t)" unfolding is_skip_link_decomp by blast
qed

lemma canonical_prefix_no_close:
  assumes "map canonicalize p = map canonicalize skip_prefix"
  shows "CHR '')'' \<notin> set p"
proof
  assume "CHR '')'' \<in> set p"
  then have "canonicalize (CHR '')'') \<in> set (map canonicalize p)" by simp
  then have "canonicalize (CHR '')'') \<in> set (map canonicalize skip_prefix)"
    by (simp only: assms)
  then show False by (simp add: skip_prefix_def canonicalize_def)
qed

lemma first_occurrence_le:
  "xs @ c # ys = zs @ c # ws \<Longrightarrow> c \<notin> set zs \<Longrightarrow> length zs \<le> length xs"
proof (induction zs arbitrary: xs)
  case Nil
  then show ?case by simp
next
  case (Cons z zs)
  then show ?case by (cases xs) auto
qed

lemma link_contained:
  assumes outer: "link_len s = Some n" and a: "a < n" and inner: "link_len (drop a s) = Some m"
  shows "a + m \<le> n"
proof -
  from outer obtain p tw r where s: "s = p @ tw @ CHR '')'' # r"
    and n: "n = length skip_prefix + length tw + 1" and lp: "length p = length skip_prefix"
    unfolding link_len_decomp by blast
  from inner obtain p' tw' r' where d: "drop a s = p' @ tw' @ CHR '')'' # r'"
    and lp': "length p' = length skip_prefix"
    and ci': "map canonicalize p' = map canonicalize skip_prefix"
    and nc': "CHR '')'' \<notin> set tw'" and m: "m = length skip_prefix + length tw' + 1"
    unfolding link_len_decomp by blast
  have a_le: "a \<le> length (p @ tw)" using a n lp by simp
  have "drop a s = drop a (p @ tw) @ CHR '')'' # r" using a_le by (simp add: s)
  then have eq: "drop a (p @ tw) @ CHR '')'' # r = (p' @ tw') @ CHR '')'' # r'" using d by simp
  have "CHR '')'' \<notin> set (p' @ tw')" using canonical_prefix_no_close [OF ci'] nc' by simp
  with eq have "length (p' @ tw') \<le> length (drop a (p @ tw))" by (rule first_occurrence_le)
  then show ?thesis using n m lp lp' a_le by simp
qed

lemma in_skip_link_iff:
  "in_skip_link s i \<longleftrightarrow> (\<exists>a m. a \<le> i \<and> link_len (drop a s) = Some m \<and> i < a + m)"
proof
  assume "in_skip_link s i"
  then obtain a b where ab: "a \<le> i" "i < b" "b \<le> length s"
    and l: "is_skip_link (take (b - a) (drop a s))"
    by (auto simp: in_skip_link_def)
  from ab have "b - a \<le> length (drop a s)" by simp
  with l have "link_len (drop a s) = Some (b - a)" by (simp add: slice_is_skip_link)
  with ab show "\<exists>a m. a \<le> i \<and> link_len (drop a s) = Some m \<and> i < a + m"
    by (intro exI [of _ a] exI [of _ "b - a"]) simp
next
  assume "\<exists>a m. a \<le> i \<and> link_len (drop a s) = Some m \<and> i < a + m"
  then obtain a m where a: "a \<le> i" and l: "link_len (drop a s) = Some m" and i: "i < a + m"
    by blast
  from link_len_bounds [OF l] have m: "m \<le> length s - a" "0 < m" by simp_all
  then have b: "a + m \<le> length s" by simp
  from m l have "is_skip_link (take m (drop a s))" by (simp add: slice_is_skip_link)
  then have "is_skip_link (take ((a + m) - a) (drop a s))" by simp
  with a i b show "in_skip_link s i"
    unfolding in_skip_link_def by (intro bexI [of _ a] bexI [of _ "a + m"]) simp_all
qed

lemma nths_none: "\<forall>i<length xs. i \<notin> A \<Longrightarrow> nths xs A = []"
proof -
  assume "\<forall>i<length xs. i \<notin> A"
  then have "set (nths xs A) = {}" by (auto simp: set_nths)
  then show ?thesis by simp
qed

lemma removeSkip_nths:
  "removeSkipToContentLinks s = nths s {i. \<not> in_skip_link s i}"
proof (induction "length s" arbitrary: s rule: less_induct)
  case less
  show ?case
  proof (cases s)
    case Nil
    then show ?thesis by (simp add: removeSkip_Nil)
  next
    case (Cons x xs)
    show ?thesis
    proof (cases "link_len s")
      case None
      have zero: "\<not> in_skip_link s 0" using None by (simp add: in_skip_link_iff)
      have shift: "in_skip_link s (Suc j) \<longleftrightarrow> in_skip_link xs j" for j
      proof
        assume "in_skip_link s (Suc j)"
        then obtain a m where a: "a \<le> Suc j" and l: "link_len (drop a s) = Some m"
          and j: "Suc j < a + m"
          unfolding in_skip_link_iff by blast
        from l None obtain a' where a': "a = Suc a'" by (cases a) auto
        with a l j Cons show "in_skip_link xs j"
          unfolding in_skip_link_iff by (intro exI [of _ a'] exI [of _ m]) simp
      next
        assume "in_skip_link xs j"
        then obtain a m where "a \<le> j" "link_len (drop a xs) = Some m" "j < a + m"
          unfolding in_skip_link_iff by blast
        with Cons show "in_skip_link s (Suc j)"
          unfolding in_skip_link_iff by (intro exI [of _ "Suc a"] exI [of _ m]) simp
      qed
      have "removeSkipToContentLinks s = x # removeSkipToContentLinks xs"
        using None Cons by (simp add: removeSkip_Cons)
      also have "removeSkipToContentLinks xs = nths xs {i. \<not> in_skip_link xs i}"
        using less [of xs] Cons by simp
      finally show ?thesis using zero shift Cons by (simp add: nths_Cons)
    next
      case (Some n)
      from link_len_bounds [OF Some] have n: "0 < n" "n \<le> length s" by simp_all
      have inside: "\<forall>i<length (take n s). i \<notin> {i. \<not> in_skip_link s i}"
      proof (intro allI impI)
        fix i assume "i < length (take n s)"
        then have "i < n" by simp
        with Some have "in_skip_link s i"
          unfolding in_skip_link_iff by (intro exI [of _ 0] exI [of _ n]) simp
        then show "i \<notin> {i. \<not> in_skip_link s i}" by simp
      qed
      have shift: "in_skip_link s (j + n) \<longleftrightarrow> in_skip_link (drop n s) j" for j
      proof
        assume "in_skip_link s (j + n)"
        then obtain a m where a: "a \<le> j + n" and l: "link_len (drop a s) = Some m"
          and j: "j + n < a + m"
          unfolding in_skip_link_iff by blast
        have "n \<le> a"
        proof (rule ccontr)
          assume "\<not> n \<le> a"
          then have "a < n" by simp
          from link_contained [OF Some this l] j show False by simp
        qed
        then obtain a' where a': "a = a' + n" by (metis le_add_diff_inverse2)
        with a l j show "in_skip_link (drop n s) j"
          unfolding in_skip_link_iff by (intro exI [of _ a'] exI [of _ m]) simp
      next
        assume "in_skip_link (drop n s) j"
        then obtain a m where "a \<le> j" "link_len (drop a (drop n s)) = Some m" "j < a + m"
          unfolding in_skip_link_iff by blast
        then show "in_skip_link s (j + n)"
          unfolding in_skip_link_iff by (intro exI [of _ "a + n"] exI [of _ m]) simp
      qed
      have "removeSkipToContentLinks s = removeSkipToContentLinks (drop n s)"
        using Some Cons by (simp add: removeSkip_Cons)
      also have "\<dots> = nths (drop n s) {i. \<not> in_skip_link (drop n s) i}"
        using less [of "drop n s"] n Cons by simp
      also have "\<dots> = nths (take n s @ drop n s) {i. \<not> in_skip_link s i}"
        unfolding nths_append nths_none [OF inside] using n shift by simp
      finally show ?thesis by simp
    qed
  qed
qed

lemma removeSkip_examples:
  "removeSkipToContentLinks ''[Skip to Content](#main)'' = []"
  "removeSkipToContentLinks ''[skip to content](#skip)'' = []"
  "removeSkipToContentLinks ''[Skip to Content](other)'' = ''[Skip to Content](other)''"
  by (simp_all add: removeSkip_Cons removeSkip_Nil link_len_def skip_prefix_def canonicalize_def)

text \<open>
  A link whose target holds a closing parenthesis is removed only up to that parenthesis:
  of \<^verbatim>\<open>[Skip to Content](#a(b))\<close>, a link with the target \<^verbatim>\<open>#a(b)\<close>, the last
  character stays.
\<close>

theorem removeSkipToContentLinks_parenthesis:
  "starts_with ''#'' ''#a(b)''
   \<and> markdown_link ''Skip to Content'' ''#a(b)'' = ''[Skip to Content](#a(b))''
   \<and> removeSkipToContentLinks (markdown_link ''Skip to Content'' ''#a(b)'') = '')''
   \<and> removeSkipToContentLinks (markdown_link ''Skip to Content'' ''#a(b)'') \<noteq> []"
  by (simp add: markdown_link_def removeSkip_Cons removeSkip_Nil link_len_def skip_prefix_def
      canonicalize_def)

text \<open>
  C6. \<^verbatim>\<open>removeSkipToContentLinks\<close> returns its input without the characters that lie
  inside a skip-to-content link (visible text \<^verbatim>\<open>Skip to Content\<close> in any case, target
  beginning with \<^verbatim>\<open>#\<close> and running up to the first closing parenthesis), and with
  every other character kept, in order. \<^verbatim>\<open>[Skip to Content](#main)\<close> and
  \<^verbatim>\<open>[skip to content](#skip)\<close> are removed whole; a link whose target does not begin with
  \<^verbatim>\<open>#\<close> stays.
\<close>

theorem removeSkipToContentLinks_removes:
  "removeSkipToContentLinks s = nths s {i. \<not> in_skip_link s i}
   \<and> removeSkipToContentLinks ''[Skip to Content](#main)'' = []
   \<and> removeSkipToContentLinks ''[skip to content](#skip)'' = []
   \<and> removeSkipToContentLinks ''[Skip to Content](other)'' = ''[Skip to Content](other)''"
  using removeSkip_nths [of s] removeSkip_examples by blast

section \<open>Properties of parseMarkdown\<close>

lemma fallback_eq:
  "fallback w h s =
     (case configure_result w of
        Returned u \<Rightarrow>
          (case turndown w h of
             Returned markdownContent \<Rightarrow>
               (Returned (removeSkipToContentLinks (processMultiLineLinks markdownContent)),
                s\<lparr>trace := trace s @ [Configure, Turndown h]\<rparr>)
           | Thrown e \<Rightarrow>
               (Returned [],
                s\<lparr>trace := trace s @
                  [Configure, Turndown h, LogError ''Error converting HTML to Markdown'']\<rparr>)
           | Pending \<Rightarrow> (Pending, s\<lparr>trace := trace s @ [Configure, Turndown h]\<rparr>))
      | Thrown e \<Rightarrow> (Thrown e, s\<lparr>trace := trace s @ [Configure]\<rparr>)
      | Pending \<Rightarrow> (Pending, s\<lparr>trace := trace s @ [Configure]\<rparr>))"
  by (simp add: fallback_def try_catch_def and_then_def emit_def settle_def returns_def
      split: outcome.splits)

lemma fallback_trace: "trace (snd (fallback w h s)) = trace s @ fallback_events w h"
  by (simp add: fallback_eq fallback_events_def split: outcome.splits)

lemma fallback_result: "fst (fallback w h s) = fst (fallback w h s')"
  by (simp add: fallback_eq split: outcome.splits)

lemma go_catch_eq:
  "string_form error = Some str \<Longrightarrow>
     go_catch error s = (Returned None, s\<lparr>trace := trace s @ failure_report error\<rparr>)"
  by (cases error)
    (auto simp: go_catch_def failure_report_def component_unavailable_def string_form_def
      template_string_def and_then_def emit_def returns_def)

lemma getInstance_trace:
  "\<exists>es. trace (snd (getInstance w s)) = trace s @ es \<and> set es \<subseteq> {Stat, Load}"
  by (cases "cached_instance s"; cases "stat_result w"; cases "load_result w")
    (simp_all add: getInstance_def getInstance_begin_def getInstance_resume_def
      new_GoMarkdownConverter_def and_then_def emit_def throws_def settle_def)

lemma go_attempt_trace:
  "\<exists>es. trace (snd (go_attempt w h s)) = trace s @ es \<and> set es \<subseteq> {Stat, Load, Convert h}"
proof (cases "USE_GO_MARKDOWN_PARSER w = Some ''true''")
  case False
  then show ?thesis by (simp add: go_attempt_def returns_def)
next
  case True
  obtain r s1 where g: "getInstance w s = (r, s1)" by (cases "getInstance w s")
  from getInstance_trace [of w s] g obtain es where
    es: "trace s1 = trace s @ es" "set es \<subseteq> {Stat, Load}" by auto
  show ?thesis
  proof (cases r)
    case (Returned i)
    with True g es show ?thesis
      by (cases "convert_async w h")
        (auto simp: go_attempt_def and_then_def convertHTMLToMarkdown_def emit_def settle_def
          returns_def)
  next
    case (Thrown e)
    with True g es show ?thesis by (auto simp: go_attempt_def and_then_def)
  next
    case Pending
    with True g es show ?thesis by (auto simp: go_attempt_def and_then_def)
  qed
qed

text \<open>
  C2. For \<^verbatim>\<open>null\<close>, \<^verbatim>\<open>undefined\<close> and the empty string \<^verbatim>\<open>parseMarkdown\<close> returns
  the empty string and leaves the state as it was: nothing is added to the trace, so
  neither the native renderer (file check, load, conversion) nor the fallback renderer has
  run.
\<close>

theorem parseMarkdown_absent_input:
  "parseMarkdown w Null s = (Returned [], s)
   \<and> parseMarkdown w Undefined s = (Returned [], s)
   \<and> parseMarkdown w (Str []) s = (Returned [], s)"
  by (simp add: parseMarkdown_def falsy_def returns_def)

text \<open>
  The call throws when the native renderer throws a value that has no string form (the
  \<^verbatim>\<open>catch\<close> clause converts the value for its log message, outside any \<^verbatim>\<open>try\<close>
  block), and when the fallback renderer cannot be loaded; it does not return when the
  native conversion never settles.
\<close>

theorem parseMarkdown_can_throw:
  "fst (parseMarkdown native_throws_symbol (Str ''<p>'') fresh) =
     Thrown (JsError ''TypeError'' ''Cannot convert a Symbol value to a string'')
   \<and> fst (parseMarkdown fallback_missing (Str ''<p>'') fresh) =
       Thrown (JsError ''Error'' ''Cannot find module turndown'')
   \<and> fst (parseMarkdown native_never_settles (Str ''<p>'') fresh) = Pending"
  by (simp add: native_throws_symbol_def fallback_missing_def native_never_settles_def
      throwing_symbol_def never_settling_def fresh_def parseMarkdown_def falsy_def text_of_def
      try_catch_def and_then_def go_attempt_def getInstance_def getInstance_begin_def
      getInstance_resume_def new_GoMarkdownConverter_def convertHTMLToMarkdown_def emit_def
      settle_def throws_def returns_def go_catch_def template_string_def fallback_eq)

text \<open>
  C1. Whatever the argument and the state, \<^verbatim>\<open>parseMarkdown\<close> returns a string and
  throws nothing, provided the collaborators behave: the native attempt settles, a value
  it throws has a string form, and the fallback renderer, where it is needed, can be loaded
  and its conversion settles. When then the native attempt delivers no result and the
  fallback renderer throws, the string is empty.
\<close>

theorem parseMarkdown_never_throws:
  assumes "falsy html \<or> collaborators_behave w (text_of html) s"
  shows "(\<exists>markdown. fst (parseMarkdown w html s) = Returned markdown)
         \<and> (\<not> native_returns w (text_of html) s \<and> turndown w (text_of html) = Thrown e \<longrightarrow>
              fst (parseMarkdown w html s) = Returned [])"
proof (cases "falsy html")
  case True
  then show ?thesis by (simp add: parseMarkdown_def returns_def)
next
  case False
  with assms have behave: "collaborators_behave w (text_of html) s" by simp
  let ?h = "text_of html"
  obtain g s1 where g: "go_attempt w ?h s = (g, s1)" by (cases "go_attempt w ?h s")
  show ?thesis
  proof (cases g)
    case (Returned r)
    show ?thesis
    proof (cases r)
      case (Some markdownContent)
      with Returned g False show ?thesis
        by (simp add: parseMarkdown_def try_catch_def and_then_def returns_def
            native_returns_def)
    next
      case None
      with Returned g behave have "fallback_behaves w ?h"
        by (simp add: collaborators_behave_def)
      with None Returned g False show ?thesis
        by (auto simp: parseMarkdown_def try_catch_def and_then_def fallback_eq
            fallback_behaves_def split: outcome.splits)
    qed
  next
    case (Thrown error)
    with g behave obtain str where str: "string_form error = Some str"
      and fb: "fallback_behaves w ?h"
      by (auto simp: collaborators_behave_def)
    from Thrown g False fb show ?thesis
      by (auto simp: parseMarkdown_def try_catch_def and_then_def go_catch_eq [OF str]
          fallback_eq fallback_behaves_def split: outcome.splits)
  next
    case Pending
    with g behave show ?thesis by (simp add: collaborators_behave_def)
  qed
qed

theorem parseMarkdown_never_throws_witness:
  "collaborators_behave fallback_throws (text_of (Str ''<p>'')) fresh
   \<and> \<not> native_returns fallback_throws (text_of (Str ''<p>'')) fresh
   \<and> turndown fallback_throws (text_of (Str ''<p>'')) = Thrown (NonError ''failed'')
   \<and> fst (parseMarkdown fallback_throws (Str ''<p>'') fresh) = Returned []"
proof -
  have attempt: "fst (go_attempt fallback_throws ''<p>'' fresh) = Returned None"
    by (simp add: fallback_throws_def go_attempt_def returns_def)
  have throws: "turndown fallback_throws ''<p>'' = Thrown (NonError ''failed'')"
    by (simp add: fallback_throws_def throwing_def)
  have behave: "collaborators_behave fallback_throws (text_of (Str ''<p>'')) fresh"
    using attempt throws
    by (simp add: collaborators_behave_def fallback_behaves_def text_of_def fallback_throws_def)
  have no_native: "\<not> native_returns fallback_throws (text_of (Str ''<p>'')) fresh"
    using attempt by (simp add: native_returns_def text_of_def)
  have throws': "turndown fallback_throws (text_of (Str ''<p>'')) = Thrown (NonError ''failed'')"
    using throws by (simp add: text_of_def)
  from parseMarkdown_never_throws [of "Str ''<p>''" fallback_throws fresh "NonError ''failed''"]
    behave no_native throws'
  show ?thesis by blast
qed

text \<open>
  The collaborators behave when the file check settles, loading the library and the native
  conversion settle with a value or with a thrown value that has a string form, loading and
  configuring the fallback renderer returns, and its conversion settles.
\<close>

lemma collaborators_behave_if:
  assumes "stat_result w \<noteq> Pending"
    and "settles_printably (load_result w)"
    and "settles_printably (convert_async w h)"
    and "configure_result w = Returned ()"
    and "turndown w h \<noteq> Pending"
  shows "collaborators_behave w h s"
  using assms
  by (cases "cached_instance s"; cases "stat_result w"; cases "load_result w";
      cases "convert_async w h")
    (simp_all add: collaborators_behave_def fallback_behaves_def settles_printably_def
      go_attempt_def getInstance_def getInstance_begin_def getInstance_resume_def
      new_GoMarkdownConverter_def convertHTMLToMarkdown_def and_then_def emit_def settle_def
      throws_def returns_def string_form_def)

lemma parseMarkdown_fallback_alone:
  "h \<noteq> [] \<Longrightarrow> parseMarkdown (fallback_alone w) (Str h) s = fallback w h s"
  by (simp add: parseMarkdown_def falsy_def text_of_def fallback_alone_def go_attempt_def
      try_catch_def and_then_def returns_def fallback_eq split: outcome.splits)

text \<open>
  C7. With the native renderer enabled and its attempt failing with a value that has a
  string form, the events of the call are those of the attempt (file check, load and
  conversion only), then the report of the failure, then the events of the fallback
  renderer running alone. The report is one warning and nothing to telemetry when the
  message of the error is \<^verbatim>\<open>Go shared library not found\<close>, and one telemetry report and
  one error-level entry otherwise. The fallback renderer is entered once (it writes one
  error-level entry of its own if its conversion throws), and the outcome of the call is
  the outcome of the fallback renderer running alone.
\<close>

theorem native_failure_falls_back:
  assumes enabled: "USE_GO_MARKDOWN_PARSER w = Some ''true''"
    and nonempty: "h \<noteq> []"
    and fails: "fst (go_attempt w h s) = Thrown error"
    and printable: "string_form error = Some str"
  shows "events_of (parseMarkdown w (Str h)) s =
           events_of (go_attempt w h) s @
           (if component_unavailable error
            then [LogWarn ''Tried to use Go parser, but it doesn't exist in the file system.'']
            else [CaptureException error,
                  LogError (''Error converting HTML to Markdown with Go parser: '' @ str)]) @
           events_of (parseMarkdown (fallback_alone w) (Str h)) s
         \<and> set (events_of (go_attempt w h) s) \<subseteq> {Stat, Load, Convert h}
         \<and> events_of (parseMarkdown (fallback_alone w) (Str h)) s =
             (case configure_result w of
                Returned u \<Rightarrow>
                  (case turndown w h of
                     Thrown e \<Rightarrow>
                       [Configure, Turndown h, LogError ''Error converting HTML to Markdown'']
                   | _ \<Rightarrow> [Configure, Turndown h])
              | _ \<Rightarrow> [Configure])
         \<and> fst (parseMarkdown w (Str h) s) = fst (parseMarkdown (fallback_alone w) (Str h) s)"
proof -
  obtain s1 where g: "go_attempt w h s = (Thrown error, s1)"
    using fails by (cases "go_attempt w h s") simp
  from go_attempt_trace [of w h s] g obtain es where
    es: "trace s1 = trace s @ es" "set es \<subseteq> {Stat, Load, Convert h}" by auto
  have native: "events_of (go_attempt w h) s = es" using g es by (simp add: events_of_def)
  let ?s2 = "s1\<lparr>trace := trace s1 @ failure_report error\<rparr>"
  have run: "parseMarkdown w (Str h) s = fallback w h ?s2"
    using nonempty g
    by (simp add: parseMarkdown_def falsy_def text_of_def try_catch_def and_then_def
        go_catch_eq [OF printable])
  have alone: "parseMarkdown (fallback_alone w) (Str h) s = fallback w h s"
    using nonempty by (rule parseMarkdown_fallback_alone)
  have report: "failure_report error =
      (if component_unavailable error
       then [LogWarn ''Tried to use Go parser, but it doesn't exist in the file system.'']
       else [CaptureException error,
             LogError (''Error converting HTML to Markdown with Go parser: '' @ str)])"
    using printable by (simp add: failure_report_def)
  have events: "fallback_events w h =
      (case configure_result w of
         Returned u \<Rightarrow>
           (case turndown w h of
              Thrown e \<Rightarrow>
                [Configure, Turndown h, LogError ''Error converting HTML to Markdown'']
            | _ \<Rightarrow> [Configure, Turndown h])
       | _ \<Rightarrow> [Configure])"
    by (simp add: fallback_events_def)
  have ev_alone: "events_of (parseMarkdown (fallback_alone w) (Str h)) s = fallback_events w h"
    by (simp add: events_of_def alone fallback_trace)
  have ev_run: "events_of (parseMarkdown w (Str h)) s =
      es @ failure_report error @ fallback_events w h"
    by (simp add: events_of_def run fallback_trace es)
  have result: "fst (parseMarkdown w (Str h) s) = fst (parseMarkdown (fallback_alone w) (Str h) s)"
    unfolding run alone by (rule fallback_result)
  show ?thesis
    unfolding report [symmetric] events [symmetric] ev_alone ev_run native
    using es(2) result by simp
qed

theorem native_failure_falls_back_witness:
  "USE_GO_MARKDOWN_PARSER library_missing = Some ''true''
   \<and> ''<p>'' \<noteq> []
   \<and> fst (go_attempt library_missing ''<p>'' fresh) =
       Thrown (JsError ''Error'' ''Go shared library not found'')
   \<and> string_form (JsError ''Error'' ''Go shared library not found'') =
       Some ''Error: Go shared library not found''
   \<and> events_of (parseMarkdown library_missing (Str ''<p>'')) fresh =
       [Stat, LogWarn ''Tried to use Go parser, but it doesn't exist in the file system.'',
        Configure, Turndown ''<p>'']
   \<and> fst (parseMarkdown library_missing (Str ''<p>'') fresh) = Returned ''<p>''"
proof -
  have enabled: "USE_GO_MARKDOWN_PARSER library_missing = Some ''true''"
    by (simp add: library_missing_def)
  have nonempty: "''<p>'' \<noteq> []" by simp
  have attempt: "go_attempt library_missing ''<p>'' fresh =
      (Thrown (JsError ''Error'' ''Go shared library not found''),
       \<lparr>cached_instance = None, constructed = 0, trace = [Stat]\<rparr>)"
    by (simp add: library_missing_def fresh_def go_attempt_def and_then_def getInstance_def
        getInstance_begin_def getInstance_resume_def throws_def)
  then have fails: "fst (go_attempt library_missing ''<p>'' fresh) =
      Thrown (JsError ''Error'' ''Go shared library not found'')"
    by simp
  have printable: "string_form (JsError ''Error'' ''Go shared library not found'') =
      Some ''Error: Go shared library not found''"
    by (simp add: string_form_def error_toString_def)
  have native: "events_of (go_attempt library_missing ''<p>'') fresh = [Stat]"
    using attempt by (simp add: events_of_def fresh_def)
  have configures: "configure_result library_missing = Returned ()"
    by (simp add: library_missing_def)
  have works: "turndown library_missing ''<p>'' = Returned ''<p>''"
    by (simp add: library_missing_def echo_def)
  have alone: "fst (parseMarkdown (fallback_alone library_missing) (Str ''<p>'') fresh) =
      Returned ''<p>''"
    by (simp add: parseMarkdown_fallback_alone fallback_eq configures works removeSkip_Cons
        removeSkip_Nil link_len_def skip_prefix_def processMultiLineLinks_def)
  note falls_back = native_failure_falls_back [OF enabled nonempty fails printable]
  from falls_back have events: "events_of (parseMarkdown library_missing (Str ''<p>'')) fresh =
      [Stat, LogWarn ''Tried to use Go parser, but it doesn't exist in the file system.'',
       Configure, Turndown ''<p>'']"
    unfolding native by (simp add: configures works component_unavailable_def)
  from falls_back have "fst (parseMarkdown library_missing (Str ''<p>'') fresh) = Returned ''<p>''"
    unfolding alone by simp
  with enabled fails printable events show ?thesis by simp
qed

text \<open>
  When the conversion of the fallback renderer throws as well, its own error-level entry
  follows the report of the native failure: the call writes two error-level entries. And
  when the native renderer throws a value that has no string form, the telemetry report is
  made, no error-level entry is written, and the call throws without entering the fallback
  renderer.
\<close>

theorem native_and_fallback_failure:
  "USE_GO_MARKDOWN_PARSER both_throw = Some ''true''
   \<and> fst (go_attempt both_throw ''<p>'' fresh) = Thrown (NonError ''failed'')
   \<and> events_of (parseMarkdown both_throw (Str ''<p>'')) fresh =
       [Stat, Load, Convert ''<p>'', CaptureException (NonError ''failed''),
        LogError ''Error converting HTML to Markdown with Go parser: failed'',
        Configure, Turndown ''<p>'', LogError ''Error converting HTML to Markdown'']
   \<and> fst (parseMarkdown both_throw (Str ''<p>'') fresh) = Returned []
   \<and> USE_GO_MARKDOWN_PARSER native_throws_symbol = Some ''true''
   \<and> fst (go_attempt native_throws_symbol ''<p>'' fresh) =
       Thrown (NoStringForm ''Cannot convert a Symbol value to a string'')
   \<and> events_of (parseMarkdown native_throws_symbol (Str ''<p>'')) fresh =
       [Stat, Load, Convert ''<p>'',
        CaptureException (NoStringForm ''Cannot convert a Symbol value to a string'')]
   \<and> fst (parseMarkdown native_throws_symbol (Str ''<p>'') fresh) =
       Thrown (JsError ''TypeError'' ''Cannot convert a Symbol value to a string'')"
  by (simp add: both_throw_def native_throws_symbol_def throwing_symbol_def
      fresh_def throwing_def events_of_def parseMarkdown_def falsy_def
      text_of_def try_catch_def and_then_def go_attempt_def getInstance_def
      getInstance_begin_def getInstance_resume_def new_GoMarkdownConverter_def
      convertHTMLToMarkdown_def emit_def settle_def throws_def returns_def go_catch_def
      template_string_def fallback_eq)

text \<open>
  C9. Two first calls of \<^verbatim>\<open>getInstance\<close> in flight together, with the library present:
  both read the empty field before either has stored an object, so both load the library
  and construct an object, and the two calls return different objects.
\<close>

theorem getInstance_interleaved:
  "run library_present [0, 1, 0, 1] ([NotStarted, NotStarted], fresh) =
     ([Settled (Inr 0), Settled (Inr 1)],
      \<lparr>cached_instance = Some 1, constructed = 2, trace = [Stat, Stat, Load, Load]\<rparr>)"
  by (simp add: library_present_def fresh_def run_def step_def getInstance_begin_def
      getInstance_resume_def new_GoMarkdownConverter_def and_then_def emit_def settle_def)

text \<open>One call after the other: the second call finds the object of the first.\<close>

lemma getInstance_in_turn:
  "run library_present [0, 0, 1, 1] ([NotStarted, NotStarted], fresh) =
     ([Settled (Inr 0), Settled (Inr 0)],
      \<lparr>cached_instance = Some 0, constructed = 1, trace = [Stat, Load]\<rparr>)"
  by (simp add: library_present_def fresh_def run_def step_def getInstance_begin_def
      getInstance_resume_def new_GoMarkdownConverter_def and_then_def emit_def settle_def)

text \<open>A call that runs alone is \<open>getInstance\<close>.\<close>

lemma getInstance_alone:
  "run w [0, 0] ([NotStarted], s) =
     ([case fst (getInstance w s) of
         Returned i \<Rightarrow> Settled (Inr i)
       | Thrown e \<Rightarrow> Settled (Inl e)
       | Pending \<Rightarrow> Stuck],
      snd (getInstance w s))"
  by (cases "cached_instance s")
    (simp_all add: run_def step_def getInstance_def getInstance_begin_def
      split: prod.splits outcome.splits)

section \<open>Properties of the image rules\<close>

lemma wechatImages_src_order:
  "wechatImages_src getAttribute =
     strip_lazy_params
       (if truthy (getAttribute ''data-src'') then or_empty (getAttribute ''data-src'')
        else if str_includes ''data:image/svg'' (or_empty (getAttribute ''src''))
        then scan_attrs getAttribute possibleAttrs (or_empty (getAttribute ''src''))
        else or_empty (getAttribute ''src''))"
  by (simp add: wechatImages_src_def js_or_def Let_def truthy_def or_empty_def
      split: option.splits)

text \<open>
  C4. An image whose \<^verbatim>\<open>data-src\<close> carries the fragment \<^verbatim>\<open>&wx_lazy=1\<close> twice passes
  the filter of the rule, and the rule writes a URL that still carries the fragment once
  (at position 12): each of the two expressions is applied without the flag \<^verbatim>\<open>g\<close> and
  removes its leftmost match only.
\<close>

theorem wechatImages_src_repeated_fragment:
  \<open>wechatImages_filter ''IMG'' (img_node [(''data-src'', ''http://x/a?b&wx_lazy=1&wx_lazy=1'')])
   \<and> wechatImages_src (img_node [(''data-src'', ''http://x/a?b&wx_lazy=1&wx_lazy=1'')]) =
       ''http://x/a?b&wx_lazy=1''
   \<and> search [Lit ''&wx_lazy='', Plus Digit]
       (wechatImages_src (img_node [(''data-src'', ''http://x/a?b&wx_lazy=1&wx_lazy=1'')])) =
       Some (12, [9, 1])\<close>
  by code_simp

text \<open>
  C5. The two renderers resolve the same markup to different URLs. For an image that has
  a \<^verbatim>\<open>data-src\<close> and no \<^verbatim>\<open>src\<close> the rule of the fallback renderer gives the value
  of \<^verbatim>\<open>data-src\<close>, while the native side adds no \<^verbatim>\<open>src\<close> at all: \<open>srcRegex\<close>
  matches inside \<^verbatim>\<open>data-src="..."\<close> itself, so the branch that adds the attribute is
  never taken. For an image of class \<^verbatim>\<open>rich_pages\<close> without \<^verbatim>\<open>data-src\<close> the rule
  strips \<^verbatim>\<open>&wx_lazy=1\<close> from \<^verbatim>\<open>src\<close>, while the native side leaves the tag as it is.
  For a \<^verbatim>\<open>data-src\<close> ending in \<^verbatim>\<open>&wx_lazy=2\<close> the rule strips the fragment, while the
  native side, which removes the text \<^verbatim>\<open>&wx_lazy=1\<close> only, copies it into \<^verbatim>\<open>src\<close>.
\<close>

theorem renderers_resolve_differently:
  \<open>wechatImages_filter ''IMG'' (img_node [(''data-src'', ''http://x/a.png'')])
   \<and> wechatImages_src (img_node [(''data-src'', ''http://x/a.png'')]) = ''http://x/a.png''
   \<and> processWechatLazyImages (img_tag [(''data-src'', ''http://x/a.png'')]) =
       ''<img data-src="http://x/a.png">''
   \<and> wechatImages_filter ''IMG''
       (img_node [(''class'', ''rich_pages''), (''src'', ''http://x/a?wx_fmt=png&wx_lazy=1'')])
   \<and> wechatImages_src
       (img_node [(''class'', ''rich_pages''), (''src'', ''http://x/a?wx_fmt=png&wx_lazy=1'')]) =
       ''http://x/a?wx_fmt=png''
   \<and> processWechatLazyImages
       (img_tag [(''class'', ''rich_pages''), (''src'', ''http://x/a?wx_fmt=png&wx_lazy=1'')]) =
       ''<img class="rich_pages" src="http://x/a?wx_fmt=png&wx_lazy=1">''
   \<and> wechatImages_filter ''IMG''
       (img_node [(''data-src'', ''http://x/a?b&wx_lazy=2''), (''src'', ''p'')])
   \<and> wechatImages_src (img_node [(''data-src'', ''http://x/a?b&wx_lazy=2''), (''src'', ''p'')]) =
       ''http://x/a?b''
   \<and> processWechatLazyImages
       (img_tag [(''data-src'', ''http://x/a?b&wx_lazy=2''), (''src'', ''p'')]) =
       ''<img data-src="http://x/a?b&wx_lazy=2" src="http://x/a?b&wx_lazy=2">''\<close>
  by code_simp

text \<open>
  C8. \<^verbatim>\<open>processWechatLazyImages\<close> is not idempotent. Removing \<^verbatim>\<open>&wx_lazy=1\<close> from
  \<^verbatim>\<open>&wx_&wx_lazy=1lazy=1\<close> leaves \<^verbatim>\<open>&wx_lazy=1\<close>, which the first pass writes out
  and only a second pass removes. And the value of \<^verbatim>\<open>data-src\<close> is expanded as a
  template each time it is written: the first pass turns \<^verbatim>\<open>$$a\<close> into \<^verbatim>\<open>$a\<close>, the
  second drops it.
\<close>

theorem processWechatLazyImages_not_idempotent:
  \<open>processWechatLazyImages ''<img data-src="http://x/a?b&wx_&wx_lazy=1lazy=1">'' =
     ''<img data-src="http://x/a?b&wx_lazy=1">''
   \<and> processWechatLazyImages
       (processWechatLazyImages ''<img data-src="http://x/a?b&wx_&wx_lazy=1lazy=1">'') =
       ''<img data-src="http://x/a?b">''
   \<and> processWechatLazyImages
       (processWechatLazyImages ''<img data-src="http://x/a?b&wx_&wx_lazy=1lazy=1">'') \<noteq>
       processWechatLazyImages ''<img data-src="http://x/a?b&wx_&wx_lazy=1lazy=1">''
   \<and> processWechatLazyImages ''<img data-src="http://x/$$a">'' = ''<img data-src="http://x/$a">''
   \<and> processWechatLazyImages (processWechatLazyImages ''<img data-src="http://x/$$a">'') =
       ''<img data-src="http://x/">''\<close>
  by code_simp

end
